theory Spec2Isabelle
  imports Main "HOL-Library.Word"
begin

section \<open>Data model\<close>

text \<open>
  An \<open>ObjectID\<close> is the 20-byte hash of an object; it is only ever compared and used
  as a map key, so it is kept as the byte string it is.
\<close>

type_synonym ObjectID = string

text \<open>
  Go's \<open>error\<close> values, as far as the two files create or test them.
  \<open>ErrNotExist\<close> stands for every error on which \<open>os.IsNotExist\<close> answers true,
  \<open>ErrInvalid\<close> is \<open>os.ErrInvalid\<close>, \<open>IOError\<close> any other failure of the
  storage, \<open>ErrorString\<close> the result of \<open>errors.New\<close>, and \<open>Errorf\<close> the result
  of \<open>fmt.Errorf\<close> (format and argument, left unformatted). \<open>Panic\<close> is a
  run-time panic (a nil dereference), not an error value.
\<close>

datatype error =
    ErrNotExist
  | ErrInvalid
  | IOError string
  | ErrNoPackedRefs
  | RefNotFound string
  | ObjectNotFound ObjectID
  | ErrorString string
  | Errorf string string
  | Panic string

definition IsNotExist :: "error \<Rightarrow> bool" where
  "IsNotExist err = (err = ErrNotExist)"

type_synonym ObjectType = int

definition ObjectCommit :: ObjectType where "ObjectCommit = 0x10"
definition ObjectTree :: ObjectType where "ObjectTree = 0x20"
definition ObjectBlob :: ObjectType where "ObjectBlob = 0x30"
definition ObjectTag :: ObjectType where "ObjectTag = 0x40"

text \<open>The \<open>Object\<close> struct; the stream \<open>Data\<close> is the bytes it delivers.\<close>

record Object =
  Type :: ObjectType
  Size :: "64 word"
  Data :: string

text \<open>
  Modelled from the spec: the \<open>idxFile\<close> struct is declared outside the two files.
  A pack index is an archive path and a mapping from identifier to byte offset
  (a \<open>uint64\<close>) within that archive.
\<close>

record idxFile =
  packpath :: string
  offsetValues :: "ObjectID \<rightharpoonup> 64 word"

text \<open>
  Modelled from the spec: the \<open>Commit\<close> struct is declared outside the two files.
  A commit has its identifier, the ordered identifiers of its parents, the
  committer timestamp \<open>Committer.When\<close> (an instant, here a number of seconds) and
  a message. The back-reference \<open>repo\<close> is left out: there is one repository handle,
  and it is passed explicitly.
\<close>

record Commit =
  Id :: ObjectID
  parents :: "ObjectID list"
  When :: int
  CommitMessage :: string

text \<open>
  What \<open>getCommit\<close> asks of its collaborators is recorded in a ghost log, so that
  "performs no object resolution" can be said of a call.
\<close>

datatype event = ObjectCall ObjectID | ParseCall ObjectID

text \<open>
  Modelled from the spec: the \<open>Repository\<close> struct is declared outside the two
  files. The handle holds the root path, the Pack Index Set as an ordered
  collection (discovery order) and the commit cache, a Go map that is \<open>nil\<close>
  (\<open>None\<close>) until the first call of \<open>getCommit\<close>. \<open>log\<close> is the ghost log.
\<close>

record Repository =
  Path :: string
  indexfiles :: "idxFile list"
  commitCache :: "(ObjectID \<rightharpoonup> Commit) option"
  log :: "event list"

text \<open>
  The collaborators that live outside the two files, taken as parameters: the
  loose-object decoder, the pack decoder, the path of a loose object, the hex
  form of an identifier, \<open>repo.object\<close>, the commit-body parser, the reading of a
  loose ref file (\<open>ioutil.ReadFile\<close> on the path joined to the repository root)
  and the opening and line-wise scanning of the packed-refs file.
\<close>

datatype packed_file =
    OpenFails error
  | Opened "string list" "error option"

record Env =
  readObjectFile :: "string \<Rightarrow> bool \<Rightarrow> error + (ObjectType \<times> 64 word \<times> string)"
  readObjectBytes ::
    "string \<Rightarrow> idxFile list \<Rightarrow> 64 word \<Rightarrow> bool \<Rightarrow> error + (ObjectType \<times> 64 word \<times> string)"
  filepathFromSHA1 :: "string \<Rightarrow> string \<Rightarrow> string"
  ObjectID_String :: "ObjectID \<Rightarrow> string"
  object :: "ObjectID \<Rightarrow> bool \<Rightarrow> error + Object"
  parseCommitData :: "string \<Rightarrow> error + Commit"
  ReadFile :: "string \<Rightarrow> error + string"
  packedRefs :: packed_file

section \<open>Object resolution (repo_object.go)\<close>

definition ObjectType_String :: "ObjectType \<Rightarrow> string" where
  "ObjectType_String t =
     (if t = ObjectCommit then ''commit''
      else if t = ObjectTree then ''tree''
      else if t = ObjectBlob then ''blob''
      else '''')"

text \<open>The range loop of \<open>findObjectPack\<close>; \<open>None\<close> is the result \<open>nil, 0\<close>.\<close>

fun findObjectPack_loop :: "idxFile list \<Rightarrow> ObjectID \<Rightarrow> (idxFile \<times> 64 word) option" where
  "findObjectPack_loop [] oid = None"
| "findObjectPack_loop (indexfile # rest) oid =
     (case offsetValues indexfile oid of
        Some offset \<Rightarrow> Some (indexfile, offset)
      | None \<Rightarrow> findObjectPack_loop rest oid)"

definition findObjectPack :: "Repository \<Rightarrow> ObjectID \<Rightarrow> (idxFile \<times> 64 word) option" where
  "findObjectPack repo oid = findObjectPack_loop (indexfiles repo) oid"

definition getRawObject :: "Env \<Rightarrow> Repository \<Rightarrow> ObjectID \<Rightarrow> bool \<Rightarrow> error + Object" where
  "getRawObject env repo oid metaOnly =
     (case readObjectFile env (filepathFromSHA1 env (Path repo) (ObjectID_String env oid)) metaOnly of
        Inr (ot, len, dataRc) \<Rightarrow> Inr \<lparr>Type = ot, Size = len, Data = dataRc\<rparr>
      | Inl err \<Rightarrow>
          if \<not> IsNotExist err then Inl err
          else
            (case findObjectPack repo oid of
               None \<Rightarrow> Inl (ObjectNotFound oid)
             | Some _ \<Rightarrow>
                 (case findObjectPack repo oid of
                    None \<Rightarrow> Inl (Panic ''nil pack'')
                  | Some (pack, offset) \<Rightarrow>
                      (case readObjectBytes env (packpath pack) (indexfiles repo) offset metaOnly of
                         Inl err \<Rightarrow> Inl err
                       | Inr (ot, len, data) \<Rightarrow>
                           Inr \<lparr>Type = ot, Size = len, Data = data\<rparr>))))"

section \<open>Reference resolution\<close>

text \<open>
  \<open>strings.Fields\<close> splits a line around runs of white space. The model reads the
  line byte by byte with the six ASCII white-space characters of
  \<open>unicode.IsSpace\<close> (tab, line feed, vertical tab, form feed, carriage return,
  space); a line is taken to be ASCII.
\<close>

definition isSpace :: "char \<Rightarrow> bool" where
  "isSpace c = (c = CHR 0x09 \<or> c = CHR 0x0A \<or> c = CHR 0x0B \<or> c = CHR 0x0C \<or> c = CHR 0x0D \<or> c = CHR 0x20)"

fun Fields_from :: "string \<Rightarrow> string \<Rightarrow> string list" where
  "Fields_from cur [] = (if cur = [] then [] else [cur])"
| "Fields_from cur (c # cs) =
     (if isSpace c then (if cur = [] then Fields_from [] cs else cur # Fields_from [] cs)
      else Fields_from (cur @ [c]) cs)"

definition Fields :: "string \<Rightarrow> string list" where
  "Fields s = Fields_from [] s"

definition HasPrefix :: "string \<Rightarrow> string \<Rightarrow> bool" where
  "HasPrefix s p = (take (length p) s = p)"

record packedRef =
  commit :: string
  refpath :: string

definition parseRefLine :: "string \<Rightarrow> error + packedRef" where
  "parseRefLine line =
     (let parseErr = Errorf ''could not parse ref from line %q'' line;
          fields = Fields line
      in if length fields \<noteq> 2 then Inl parseErr
         else if length (fields ! 0) \<noteq> 40 then Inl parseErr
         else if \<not> HasPrefix (fields ! 1) ''refs/'' then Inl parseErr
         else Inr \<lparr>commit = fields ! 0, refpath = fields ! 1\<rparr>)"

text \<open>
  The \<open>for scan.Scan()\<close> loop of \<open>getCommitIdOfPackedRef\<close> over the lines the
  scanner delivers; \<open>None\<close> when the loop ends without a \<open>return\<close>.
\<close>

fun scan_loop :: "string \<Rightarrow> string list \<Rightarrow> string option" where
  "scan_loop rp [] = None"
| "scan_loop rp (text # rest) =
     (case parseRefLine text of
        Inr refLine \<Rightarrow> if refpath refLine = rp then Some (commit refLine) else scan_loop rp rest
      | Inl err \<Rightarrow> scan_loop rp rest)"

text \<open>
  \<open>os.Open\<close> either fails or opens the file, and the scanner then delivers lines
  and, at the end, \<open>scan.Err()\<close>. When \<open>os.Open\<close> fails with an error other than
  not-exist, the code goes on with a nil file: the scanner's first read fails with
  \<open>os.ErrInvalid\<close>, no line is delivered and \<open>scan.Err()\<close> is that error.
\<close>

definition getCommitIdOfPackedRef :: "Env \<Rightarrow> string \<Rightarrow> error + string" where
  "getCommitIdOfPackedRef env rp =
     (case packedRefs env of
        OpenFails err \<Rightarrow> if IsNotExist err then Inl ErrNoPackedRefs else Inl ErrInvalid
      | Opened lines scanErr \<Rightarrow>
          (case scan_loop rp lines of
             Some c \<Rightarrow> Inr c
           | None \<Rightarrow>
               (case scanErr of
                  Some err \<Rightarrow> Inl err
                | None \<Rightarrow> Inl (RefNotFound rp))))"

text \<open>
  \<open>refRexp.FindAllStringSubmatch(s, 1)\<close> for the pattern \<open>ref: (.*)\n\<close>: the
  leftmost position where \<open>ref: \<close> is followed, on the same line, by a line feed
  (\<open>.\<close> does not match a line feed); the result is the captured group, \<open>None\<close>
  when there is no match (\<open>allMatches == nil\<close>).
\<close>

definition match_here :: "string \<Rightarrow> string option" where
  "match_here s =
     (if HasPrefix s ''ref: '' \<and> CHR 0x0A \<in> set (drop 5 s)
      then Some (takeWhile (\<lambda>c. c \<noteq> CHR 0x0A) (drop 5 s)) else None)"

fun refRexp_find :: "string \<Rightarrow> string option" where
  "refRexp_find [] = None"
| "refRexp_find (c # cs) =
     (case match_here (c # cs) of
        Some g \<Rightarrow> Some g
      | None \<Rightarrow> refRexp_find cs)"

text \<open>
  Modelled from the spec: \<open>IsObjectIDHex\<close> is defined outside the two files. An
  identifier string is valid when it is 40 characters of hexadecimal digits.
\<close>

definition isHexDigit :: "char \<Rightarrow> bool" where
  "isHexDigit c = (c \<in> set ''0123456789abcdefABCDEF'')"

definition IsObjectIDHex :: "string \<Rightarrow> bool" where
  "IsObjectIDHex s = (length s = 40 \<and> list_all isHexDigit s)"

text \<open>
  Lines 56 to 69 of \<open>getCommitIdOfRef\<close>: the content \<open>f\<close> of the loose ref file,
  or of the packed ref when the file does not exist, or the error returned.
\<close>

definition ref_content :: "Env \<Rightarrow> string \<Rightarrow> error + string" where
  "ref_content env rp =
     (case ReadFile env rp of
        Inr f \<Rightarrow> Inr f
      | Inl err \<Rightarrow>
          if IsNotExist err then
            (case getCommitIdOfPackedRef env rp of
               Inl packedErr \<Rightarrow>
                 if packedErr = ErrNoPackedRefs then Inl (RefNotFound rp) else Inl packedErr
             | Inr f \<Rightarrow> Inr f)
          else Inl err)"

text \<open>Lines 73 to 81: the content is taken to be an identifier.\<close>

definition assume_ObjectID :: "string \<Rightarrow> error + string" where
  "assume_ObjectID f =
     (if length f < 40 then Inl (ErrorString ''ObjectID hash too short'')
      else let oid = take 40 f
           in if \<not> IsObjectIDHex oid then Inl (Errorf ''heads file wrong ObjectID string %s'' oid)
              else Inr oid)"

text \<open>
  The \<open>goto start\<close> loop has no bound, so the function is partial: \<open>None\<close> is a
  call that does not return.
\<close>

partial_function (option) getCommitIdOfRef :: "Env \<Rightarrow> string \<Rightarrow> (error + string) option" where
  "getCommitIdOfRef env rp =
     (case ref_content env rp of
        Inl err \<Rightarrow> Some (Inl err)
      | Inr f \<Rightarrow>
          (case refRexp_find f of
             None \<Rightarrow> Some (assume_ObjectID f)
           | Some target \<Rightarrow> getCommitIdOfRef env target))"

section \<open>Commits and the commit cache\<close>

text \<open>
  Lines 150 to 164 of \<open>getCommit\<close>, after a cache miss: \<open>cache\<close> is the map
  that \<open>repo.commitCache\<close> holds at that point.
\<close>

definition fetchCommit ::
  "Env \<Rightarrow> Repository \<Rightarrow> (ObjectID \<rightharpoonup> Commit) \<Rightarrow> ObjectID \<Rightarrow> (error + Commit) \<times> Repository" where
  "fetchCommit env repo cache oid =
     (let repo1 = repo\<lparr>log := log repo @ [ObjectCall oid]\<rparr>
      in case object env oid False of
           Inl err \<Rightarrow> (Inl err, repo1)
         | Inr ob \<Rightarrow>
             (let repo2 = repo1\<lparr>log := log repo1 @ [ParseCall oid]\<rparr>
              in case parseCommitData env (Data ob) of
                   Inl err \<Rightarrow> (Inl err, repo2)
                 | Inr parsed \<Rightarrow>
                     (let c = parsed\<lparr>Id := oid\<rparr>
                      in (Inr c, repo2\<lparr>commitCache := Some (cache(oid \<mapsto> c))\<rparr>))))"

definition getCommit :: "Env \<Rightarrow> Repository \<Rightarrow> ObjectID \<Rightarrow> (error + Commit) \<times> Repository" where
  "getCommit env repo oid =
     (case commitCache repo of
        Some cache \<Rightarrow>
          (case cache oid of
             Some c \<Rightarrow> (Inr c, repo)
           | None \<Rightarrow> fetchCommit env repo cache oid)
      | None \<Rightarrow> fetchCommit env (repo\<lparr>commitCache := Some Map.empty\<rparr>) Map.empty oid)"

text \<open>
  Modelled from the spec: \<open>ParentCount\<close>, \<open>ParentId\<close> and \<open>Parent\<close> are methods of
  \<open>Commit\<close> defined outside the two files. The parents are an ordered sequence of
  identifiers, and \<open>Parent(i)\<close> resolves the \<open>i\<close>-th of them lazily through the
  owning repository.
\<close>

definition ParentCount :: "Commit \<Rightarrow> nat" where
  "ParentCount c = length (parents c)"

definition ParentId :: "Commit \<Rightarrow> nat \<Rightarrow> error + ObjectID" where
  "ParentId c n = (if n < length (parents c) then Inr (parents c ! n) else Inl (ErrorString ''parent does not exist''))"

definition Parent :: "Env \<Rightarrow> Repository \<Rightarrow> Commit \<Rightarrow> nat \<Rightarrow> (error + Commit) \<times> Repository" where
  "Parent env repo c n =
     (case ParentId c n of
        Inl err \<Rightarrow> (Inl err, repo)
      | Inr pid \<Rightarrow> getCommit env repo pid)"

section \<open>Commit graph traversal\<close>

text \<open>
  The \<open>for\<close> loop of \<open>CommitsBetween\<close>; \<open>l\<close> is the list built so far. The loop
  ends only at \<open>before\<close> or at a commit without parents, so it is partial.
\<close>

partial_function (option) CommitsBetween_loop ::
  "Env \<Rightarrow> Repository \<Rightarrow> Commit \<Rightarrow> Commit \<Rightarrow> Commit list \<Rightarrow> ((error + Commit list) \<times> Repository) option" where
  "CommitsBetween_loop env repo cur before l =
     (if Id cur = Id before then Some (Inr l, repo)
      else
        (let l1 = l @ [cur]
         in if ParentCount cur = 0 then Some (Inr l1, repo)
            else
              (case Parent env repo cur 0 of
                 (Inl err, repo1) \<Rightarrow> Some (Inl err, repo1)
               | (Inr p, repo1) \<Rightarrow> CommitsBetween_loop env repo1 p before l1)))"

text \<open>
  \<open>last\<close> (here \<open>lastc\<close>) and \<open>before\<close> are pointers and may be nil (\<open>None\<close>); the loop reads
  \<open>before.Id\<close> at once, which panics on a nil \<open>before\<close>.
\<close>

definition CommitsBetween ::
  "Env \<Rightarrow> Repository \<Rightarrow> Commit option \<Rightarrow> Commit option \<Rightarrow> ((error + Commit list) \<times> Repository) option" where
  "CommitsBetween env repo lastc before =
     (case lastc of
        None \<Rightarrow> Some (Inr [], repo)
      | Some lc \<Rightarrow>
          if ParentCount lc = 0 then Some (Inr [], repo)
          else
            (case before of
               None \<Rightarrow> Some (Inl (Panic ''nil pointer dereference''), repo)
             | Some b \<Rightarrow> CommitsBetween_loop env repo lc b []))"

text \<open>
  The result of \<open>commitsBefore\<close> is a \<open>container/list\<close>, whose elements are
  addressed by pointer. An element is a handle paired with its value; a new
  element takes the number of elements so far as its handle, which is fresh since
  the list only grows.
\<close>

type_synonym Element = nat
type_synonym commit_list = "(Element \<times> Commit) list"

definition PushBack :: "commit_list \<Rightarrow> Commit \<Rightarrow> commit_list \<times> Element" where
  "PushBack l v = (l @ [(length l, v)], length l)"

fun insert_after :: "(Element \<times> Commit) \<Rightarrow> Element \<Rightarrow> commit_list \<Rightarrow> commit_list" where
  "insert_after e mark [] = []"
| "insert_after e mark (x # xs) =
     (if fst x = mark then x # e # xs else x # insert_after e mark xs)"

definition InsertAfter :: "commit_list \<Rightarrow> Commit \<Rightarrow> Element \<Rightarrow> commit_list \<times> Element" where
  "InsertAfter l v mark = (insert_after (length l, v) mark l, length l)"

text \<open>The part of the list that starts at an element: the element, its \<open>Next()\<close>, and so on.\<close>

definition from_element :: "commit_list \<Rightarrow> Element \<Rightarrow> commit_list" where
  "from_element l e = dropWhile (\<lambda>x. fst x \<noteq> e) l"

text \<open>
  The scanning loop of \<open>commitsBefore\<close> (lines 215 to 235) on the part of the list
  that starts at \<open>in\<close>: \<open>Present\<close> is the \<open>return nil\<close> on an equal identifier,
  \<open>At in\<close> a \<open>break\<close> with the element \<open>in\<close> after which the commit goes.
\<close>

datatype scan_result = Present | At "Element option"

fun scan_from :: "Commit \<Rightarrow> commit_list \<Rightarrow> scan_result" where
  "scan_from c [] = At None"
| "scan_from c ((h, v) # rest) =
     (if Id v = Id c then Present
      else
        (case rest of
           [] \<Rightarrow> At (Some h)
         | (h1, v1) # _ \<Rightarrow>
             if When v = When c then At (Some h)
             else if When v > When c \<and> When v1 < When c then At (Some h)
             else scan_from c rest))"

text \<open>
  \<open>commitsBefore\<close> recurses along the parents of each commit. The first argument
  bounds the depth of the recursion; \<open>None\<close> means that the bound was reached. The
  mutex is never locked and is left out. The result is the error returned
  (\<open>None\<close> for \<open>nil\<close>), the repository and the list.
\<close>

function commitsBefore ::
    "nat \<Rightarrow> Env \<Rightarrow> Repository \<Rightarrow> commit_list \<Rightarrow> Element option \<Rightarrow> ObjectID \<Rightarrow> int
       \<Rightarrow> (error option \<times> Repository \<times> commit_list) option"
  and parents_loop ::
    "nat \<Rightarrow> Env \<Rightarrow> Repository \<Rightarrow> commit_list \<Rightarrow> Element option \<Rightarrow> Commit \<Rightarrow> nat
       \<Rightarrow> (error option \<times> Repository \<times> commit_list) option" where
  "commitsBefore 0 env repo l parent oid limit = None"
| "commitsBefore (Suc n) env repo l parent oid limit =
     (case getCommit env repo oid of
        (Inl err, repo1) \<Rightarrow> Some (Some err, repo1, l)
      | (Inr c, repo1) \<Rightarrow>
          (case parent of
             None \<Rightarrow>
               (case PushBack l c of
                  (l1, e) \<Rightarrow>
                    parents_loop n env repo1 l1 (if ParentCount c > 1 then Some e else parent) c 0)
           | Some p \<Rightarrow>
               (case scan_from c (from_element l p) of
                  Present \<Rightarrow> Some (None, repo1, l)
                | At None \<Rightarrow> Some (Some (Panic ''nil pointer dereference''), repo1, l)
                | At (Some i) \<Rightarrow>
                    (case InsertAfter l c i of
                       (l1, e) \<Rightarrow>
                         parents_loop n env repo1 l1 (if ParentCount c > 1 then Some e else parent) c 0))))"
| "parents_loop n env repo l pr c i =
     (if i < ParentCount c then
        (case ParentId c i of
           Inl err \<Rightarrow> Some (Some err, repo, l)
         | Inr pid \<Rightarrow>
             (case commitsBefore n env repo l pr pid 0 of
                None \<Rightarrow> None
              | Some (Some err, repo1, l1) \<Rightarrow> Some (Some err, repo1, l1)
              | Some (None, repo1, l1) \<Rightarrow> parents_loop n env repo1 l1 pr c (i + 1)))
      else Some (None, repo, l))"
  by pat_completeness auto
termination
  by (relation "measures [
        (\<lambda>x. case x of Inl (n, _) \<Rightarrow> n | Inr (n, _) \<Rightarrow> n),
        (\<lambda>x. case x of Inl _ \<Rightarrow> 0 | Inr _ \<Rightarrow> 1),
        (\<lambda>x. case x of Inl _ \<Rightarrow> 0 | Inr (n, env, repo, l, pr, c, i) \<Rightarrow> ParentCount c - i)]") auto

definition getCommitsBefore ::
  "nat \<Rightarrow> Env \<Rightarrow> Repository \<Rightarrow> ObjectID \<Rightarrow> (commit_list \<times> error option \<times> Repository) option" where
  "getCommitsBefore n env repo oid =
     (case commitsBefore n env repo [] None oid 0 of
        None \<Rightarrow> None
      | Some (err, repo1, l) \<Rightarrow> Some (l, err, repo1))"

section \<open>Auxiliary definitions and examples\<close>

text \<open>The path at which \<open>getRawObject\<close> looks for the loose object.\<close>


definition loose_path :: "Env \<Rightarrow> Repository \<Rightarrow> ObjectID \<Rightarrow> string" where
  "loose_path env repo oid = filepathFromSHA1 env (Path repo) (ObjectID_String env oid)"

text \<open>A decoder result packed into an \<open>Object\<close>, as lines 58 and 72 do.\<close>

definition as_Object :: "error + (ObjectType \<times> 64 word \<times> string) \<Rightarrow> error + Object" where
  "as_Object r = (case r of Inl err \<Rightarrow> Inl err | Inr (ot, len, d) \<Rightarrow> Inr \<lparr>Type = ot, Size = len, Data = d\<rparr>)"

text \<open>A repository with three pack indices and a store with one loose object.\<close>

definition ex_index1 :: idxFile where
  "ex_index1 = \<lparr>packpath = ''pack-1'', offsetValues = [''x'' \<mapsto> 12]\<rparr>"
definition ex_index2 :: idxFile where
  "ex_index2 = \<lparr>packpath = ''pack-2'', offsetValues = [''x'' \<mapsto> 700, ''y'' \<mapsto> 40]\<rparr>"
definition ex_index3 :: idxFile where
  "ex_index3 = \<lparr>packpath = ''pack-3'', offsetValues = [''y'' \<mapsto> 99]\<rparr>"

definition ex_packed_repo :: Repository where
  "ex_packed_repo = \<lparr>Path = ''/r/'', indexfiles = [ex_index1, ex_index2, ex_index3], commitCache = None, log = []\<rparr>"

definition ex_store :: Env where
  "ex_store = \<lparr>readObjectFile = (\<lambda>p m. if p = ''/r/l'' then Inr (ObjectBlob, 3, ''abc'')
                                      else if p = ''/r/z'' then Inl (IOError ''permission denied'')
                                      else Inl ErrNotExist),
     readObjectBytes = (\<lambda>p ix off m. if p = ''pack-2'' \<and> off = 40 then Inr (ObjectTree, 2, ''yy'')
                                       else Inl (IOError ''bad pack'')),
     filepathFromSHA1 = (\<lambda>r h. r @ h), ObjectID_String = (\<lambda>i. i),
     object = (\<lambda>oid m. Inl (ObjectNotFound oid)),
     parseCommitData = (\<lambda>d. Inl (ErrorString ''bad commit'')),
     ReadFile = (\<lambda>p. Inl ErrNotExist), packedRefs = OpenFails ErrNotExist\<rparr>"

text \<open>
  What a read of the commit cache finds: a nil map reads as an empty one.
\<close>

definition cached :: "Repository \<Rightarrow> ObjectID \<rightharpoonup> Commit" where
  "cached repo = (case commitCache repo of None \<Rightarrow> Map.empty | Some cache \<Rightarrow> cache)"

text \<open>Any later calls of \<open>getCommit\<close> on the handle, each with the store as it then is.\<close>

fun run_calls :: "Repository \<Rightarrow> (Env \<times> ObjectID) list \<Rightarrow> Repository" where
  "run_calls repo [] = repo"
| "run_calls repo ((env, oid) # rest) = run_calls (snd (getCommit env repo oid)) rest"

text \<open>
  A store of three commits with one committer timestamp: a merge \<open>M\<close> of \<open>A\<close>
  and \<open>B\<close>, where \<open>A\<close> is also the parent of \<open>B\<close>. The object of a commit
  delivers the bytes of its name, which the parser turns into the record; the
  object \<open>gone\<close> does not exist.
\<close>

definition ex_commits :: "string \<Rightarrow> error + Commit" where
  "ex_commits d =
     (if d = ''M'' then Inr \<lparr>Id = [], parents = [''A'', ''B''], When = 100, CommitMessage = ''merge''\<rparr>
      else if d = ''B'' then Inr \<lparr>Id = [], parents = [''A''], When = 100, CommitMessage = ''b''\<rparr>
      else if d = ''A'' then Inr \<lparr>Id = [], parents = [], When = 100, CommitMessage = ''a''\<rparr>
      else Inl (ErrorString ''bad commit''))"

definition ex_env :: "(string \<Rightarrow> error + Commit) \<Rightarrow> Env" where
  "ex_env parse = \<lparr>readObjectFile = (\<lambda>p m. Inl ErrNotExist),
     readObjectBytes = (\<lambda>p ix off m. Inl (IOError [])),
     filepathFromSHA1 = (\<lambda>r h. r @ h), ObjectID_String = (\<lambda>i. i),
     object = (\<lambda>oid m. if oid = ''gone'' then Inl (ObjectNotFound oid)
                          else Inr \<lparr>Type = ObjectCommit, Size = 0, Data = oid\<rparr>),
     parseCommitData = parse, ReadFile = (\<lambda>p. Inl ErrNotExist), packedRefs = OpenFails ErrNotExist\<rparr>"

definition ex_repo :: Repository where
  "ex_repo = \<lparr>Path = ''/r/'', indexfiles = [], commitCache = None, log = []\<rparr>"

text \<open>The commit that \<open>getCommit\<close> yields for an identifier on a handle.\<close>

definition commit_of :: "Env \<Rightarrow> Repository \<Rightarrow> ObjectID \<Rightarrow> error + Commit" where
  "commit_of env repo oid = fst (getCommit env repo oid)"

text \<open>
  The first-parent history as the specification words it: starting at a commit,
  follow only the first parent; stop, excluding it, at the commit whose
  identifier is \<open>b\<close>, or stop at a commit without parents, which is included.
  The first argument bounds the number of commits visited; \<open>None\<close> when the
  bound is too small or a parent cannot be fetched.
\<close>

fun first_parent_walk :: "nat \<Rightarrow> (ObjectID \<Rightarrow> error + Commit) \<Rightarrow> ObjectID \<Rightarrow> Commit \<Rightarrow> Commit list option" where
  "first_parent_walk 0 get b cur = None"
| "first_parent_walk (Suc n) get b cur =
     (if Id cur = b then Some []
      else
        (case parents cur of
           [] \<Rightarrow> Some [cur]
         | p # _ \<Rightarrow>
             (case get p of
                Inl err \<Rightarrow> None
              | Inr nxt \<Rightarrow> map_option ((#) cur) (first_parent_walk n get b nxt))))"

text \<open>What resolving and parsing the object of an identifier yields (lines 150 to 160).\<close>

definition fresh_commit :: "Env \<Rightarrow> ObjectID \<Rightarrow> error + Commit" where
  "fresh_commit env oid =
     (case object env oid False of
        Inl err \<Rightarrow> Inl err
      | Inr ob \<Rightarrow>
          (case parseCommitData env (Data ob) of
             Inl err \<Rightarrow> Inl err
           | Inr parsed \<Rightarrow> Inr (parsed\<lparr>Id := oid\<rparr>)))"

text \<open>
  A chain of five commits, \<open>c5\<close> the newest; \<open>c4\<close> is a merge whose second
  parent \<open>x\<close> cannot be parsed.
\<close>

definition ex_chain :: "string \<Rightarrow> error + Commit" where
  "ex_chain d =
     (if d = ''c5'' then Inr \<lparr>Id = [], parents = [''c4''], When = 50, CommitMessage = ''five''\<rparr>
      else if d = ''c4'' then Inr \<lparr>Id = [], parents = [''c3'', ''x''], When = 40, CommitMessage = ''four''\<rparr>
      else if d = ''c3'' then Inr \<lparr>Id = [], parents = [''c2''], When = 30, CommitMessage = ''three''\<rparr>
      else if d = ''c2'' then Inr \<lparr>Id = [], parents = [''c1''], When = 20, CommitMessage = ''two''\<rparr>
      else if d = ''c1'' then Inr \<lparr>Id = [], parents = [], When = 10, CommitMessage = ''one''\<rparr>
      else Inl (ErrorString ''bad commit''))"

definition ex_c :: "string \<Rightarrow> Commit" where
  "ex_c d = (case ex_chain d of Inr c \<Rightarrow> c\<lparr>Id := d\<rparr> | Inl _ \<Rightarrow> \<lparr>Id = d, parents = [], When = 0, CommitMessage = []\<rparr>)"

text \<open>
  A chain of exactly \<open>n\<close> indirections: \<open>follows n env rp = Some r\<close> says
  that, starting at \<open>rp\<close>, the content is symbolic \<open>n\<close> times in a row and
  that what is then read is not symbolic and yields \<open>r\<close> (an identifier, a parse
  error, or the error of the read).
\<close>

fun follows :: "nat \<Rightarrow> Env \<Rightarrow> string \<Rightarrow> (error + string) option" where
  "follows 0 env rp =
     (case ref_content env rp of
        Inl err \<Rightarrow> Some (Inl err)
      | Inr f \<Rightarrow> (case refRexp_find f of None \<Rightarrow> Some (assume_ObjectID f) | Some target \<Rightarrow> None))"
| "follows (Suc n) env rp =
     (case ref_content env rp of
        Inl err \<Rightarrow> None
      | Inr f \<Rightarrow> (case refRexp_find f of None \<Rightarrow> None | Some target \<Rightarrow> follows n env target))"

text \<open>
  A store of refs: \<open>HEAD\<close> points to a branch; two branches point to each other;
  the names \<open>h\<close>, \<open>hx\<close>, \<open>hxx\<close>, ... form a chain of twelve indirections that
  ends in an identifier; a packed-refs file holds entries, a header, an
  annotation, a three-token line and a comment of two tokens.
\<close>

definition is_hop :: "string \<Rightarrow> bool" where
  "is_hop p = (p = CHR ''h'' # replicate (length p - 1) (CHR ''x''))"

definition ex_refs :: Env where
  "ex_refs = \<lparr>readObjectFile = (\<lambda>p m. Inl ErrNotExist),
     readObjectBytes = (\<lambda>p ix off m. Inl (IOError [])),
     filepathFromSHA1 = (\<lambda>r h. r @ h), ObjectID_String = (\<lambda>i. i),
     object = (\<lambda>oid m. Inl (ObjectNotFound oid)),
     parseCommitData = (\<lambda>d. Inl (ErrorString ''bad commit'')),
     ReadFile = (\<lambda>p.
        if p = ''HEAD'' then Inr ''ref: refs/heads/main\<newline>''
        else if p = ''refs/heads/main'' then Inr ''0123456789abcdef0123456789ABCDEF01234567\<newline>''
        else if p = ''refs/heads/short'' then Inr ''0123456789abcdef\<newline>''
        else if p = ''refs/heads/bad'' then Inr ''this is not an object id, but it is long enough''
        else if p = ''refs/heads/a'' then Inr ''ref: refs/heads/b\<newline>''
        else if p = ''refs/heads/b'' then Inr ''ref: refs/heads/a\<newline>''
        else if is_hop p then
          (if length p < 13 then Inr (''ref: '' @ p @ ''x\<newline>'')
           else Inr ''89abcdef0123456789abcdef0123456789abcdef'')
        else Inl ErrNotExist),
     packedRefs = Opened
       [''# pack-refs with: peeled fully-peeled '',
        ''1111111111111111111111111111111111111111 refs/tags/v1'',
        ''^2222222222222222222222222222222222222222'',
        ''3333333333333333333333333333333333333333 refs/heads/x extra'',
        ''#234567890123456789012345678901234567890 refs/heads/y'',
        ''4444444444444444444444444444444444444444 refs/heads/y'',
        ''5555555555555555555555555555555555555555 refs/tags/v1''] None\<rparr>"


text \<open>The identifiers of a result list, in order.\<close>

definition ids :: "commit_list \<Rightarrow> ObjectID list" where
  "ids l = map (\<lambda>e. Id (snd e)) l"

section \<open>Object types\<close>

text \<open>
  C10. \<open>ObjectType.String\<close> gives "commit", "tree" and "blob" for the three
  constants of those names, and the empty string for \<open>ObjectTag\<close> and for every
  other value of the type.
\<close>

theorem ObjectType_String_values:
  "ObjectType_String ObjectCommit = ''commit'' \<and>
   ObjectType_String ObjectTree = ''tree'' \<and>
   ObjectType_String ObjectBlob = ''blob'' \<and>
   ObjectType_String ObjectTag = '''' \<and>
   (\<forall>t. t \<noteq> ObjectCommit \<and> t \<noteq> ObjectTree \<and> t \<noteq> ObjectBlob \<longrightarrow> ObjectType_String t = '''')"
  by (simp add: ObjectType_String_def ObjectCommit_def ObjectTree_def ObjectBlob_def ObjectTag_def)

theorem ObjectType_String_values_witness:
  "(7::int) \<noteq> ObjectCommit \<and> 7 \<noteq> ObjectTree \<and> 7 \<noteq> ObjectBlob \<and> ObjectType_String 7 = ''''"
  using ObjectType_String_values
  by (simp add: ObjectCommit_def ObjectTree_def ObjectBlob_def)

section \<open>Object resolution: loose first, then the pack indices\<close>

lemma findObjectPack_loop_first:
  "\<forall>j \<in> set pre. offsetValues j oid = None \<Longrightarrow> offsetValues ix oid = Some off
     \<Longrightarrow> findObjectPack_loop (pre @ ix # post) oid = Some (ix, off)"
  by (induction pre) simp_all

lemma findObjectPack_loop_None:
  "findObjectPack_loop ixs oid = None \<longleftrightarrow> (\<forall>j \<in> set ixs. offsetValues j oid = None)"
  by (induction ixs) (auto split: option.splits)

text \<open>
  C3. \<open>getRawObject\<close> looks an identifier up loose-first. When the loose read
  succeeds, its type, size and data are returned as they are; when it fails with
  an error other than not-exist, that error is returned and no pack index is
  consulted; when it fails with not-exist, the first index of the Pack Index Set,
  in order, whose mapping contains the identifier supplies the archive path and
  the offset given to the pack decoder.
\<close>

theorem getRawObject_loose_first:
  "(readObjectFile env (loose_path env repo oid) metaOnly = Inr (ot, len, d)
      \<longrightarrow> getRawObject env repo oid metaOnly = Inr \<lparr>Type = ot, Size = len, Data = d\<rparr>) \<and>
   (readObjectFile env (loose_path env repo oid) metaOnly = Inl err \<and> \<not> IsNotExist err
      \<longrightarrow> getRawObject env repo oid metaOnly = Inl err) \<and>
   (readObjectFile env (loose_path env repo oid) metaOnly = Inl err \<and> IsNotExist err \<and>
    indexfiles repo = pre @ ix # post \<and> (\<forall>j \<in> set pre. offsetValues j oid = None) \<and>
    offsetValues ix oid = Some off
      \<longrightarrow> getRawObject env repo oid metaOnly =
            as_Object (readObjectBytes env (packpath ix) (indexfiles repo) off metaOnly))"
proof (intro conjI impI)
  assume "readObjectFile env (loose_path env repo oid) metaOnly = Inr (ot, len, d)"
  then show "getRawObject env repo oid metaOnly = Inr \<lparr>Type = ot, Size = len, Data = d\<rparr>"
    by (simp add: getRawObject_def loose_path_def)
next
  assume "readObjectFile env (loose_path env repo oid) metaOnly = Inl err \<and> \<not> IsNotExist err"
  then show "getRawObject env repo oid metaOnly = Inl err"
    by (simp add: getRawObject_def loose_path_def)
next
  assume a: "readObjectFile env (loose_path env repo oid) metaOnly = Inl err \<and> IsNotExist err \<and>
    indexfiles repo = pre @ ix # post \<and> (\<forall>j \<in> set pre. offsetValues j oid = None) \<and>
    offsetValues ix oid = Some off"
  then have "findObjectPack repo oid = Some (ix, off)"
    by (simp add: findObjectPack_def findObjectPack_loop_first)
  with a show "getRawObject env repo oid metaOnly =
            as_Object (readObjectBytes env (packpath ix) (indexfiles repo) off metaOnly)"
    by (simp add: getRawObject_def loose_path_def as_Object_def split: sum.splits)
qed

theorem getRawObject_loose_first_witness:
  "getRawObject ex_store ex_packed_repo ''l'' False = Inr \<lparr>Type = ObjectBlob, Size = 3, Data = ''abc''\<rparr> \<and>
   getRawObject ex_store ex_packed_repo ''z'' False = Inl (IOError ''permission denied'') \<and>
   getRawObject ex_store ex_packed_repo ''y'' False = Inr \<lparr>Type = ObjectTree, Size = 2, Data = ''yy''\<rparr>"
  using getRawObject_loose_first [of ex_store ex_packed_repo "''l''" False ObjectBlob 3 "''abc''"]
    getRawObject_loose_first [of ex_store ex_packed_repo "''z''" False _ _ _ "IOError ''permission denied''"]
    getRawObject_loose_first [of ex_store ex_packed_repo "''y''" False _ _ _ ErrNotExist "[ex_index1]" ex_index2 "[ex_index3]" 40]
  by (simp add: ex_store_def ex_packed_repo_def loose_path_def IsNotExist_def ex_index1_def
      ex_index2_def ex_index3_def as_Object_def)

text \<open>
  C4. Provided the two decoders do not themselves fail with \<open>ObjectNotFound\<close>
  of the queried identifier, \<open>getRawObject\<close> fails with \<open>ObjectNotFound\<close> of
  that identifier exactly when the loose read fails with not-exist and no pack
  index contains the identifier; a loose-store error other than not-exist is
  returned as it is.
\<close>

theorem getRawObject_ObjectNotFound:
  assumes "\<forall>p m. readObjectFile env p m \<noteq> Inl (ObjectNotFound oid)"
    and "\<forall>p ixs off m. readObjectBytes env p ixs off m \<noteq> Inl (ObjectNotFound oid)"
  shows "(getRawObject env repo oid metaOnly = Inl (ObjectNotFound oid) \<longleftrightarrow>
            (\<exists>err. readObjectFile env (loose_path env repo oid) metaOnly = Inl err \<and> IsNotExist err) \<and>
            (\<forall>ix \<in> set (indexfiles repo). offsetValues ix oid = None)) \<and>
         (\<forall>err. readObjectFile env (loose_path env repo oid) metaOnly = Inl err \<and> \<not> IsNotExist err
            \<longrightarrow> getRawObject env repo oid metaOnly = Inl err)"
proof -
  have none: "findObjectPack repo oid = None \<longleftrightarrow> (\<forall>ix \<in> set (indexfiles repo). offsetValues ix oid = None)"
    by (simp add: findObjectPack_def findObjectPack_loop_None)
  show ?thesis
  proof (cases "readObjectFile env (loose_path env repo oid) metaOnly")
    case (Inr r)
    then show ?thesis
      by (cases r) (simp add: getRawObject_def loose_path_def)
  next
    case (Inl err)
    show ?thesis
    proof (cases "IsNotExist err")
      case False
      with Inl assms(1) show ?thesis
        by (auto simp: getRawObject_def loose_path_def)
    next
      case True
      show ?thesis
      proof (cases "findObjectPack repo oid")
        case None
        with Inl True none show ?thesis
          by (simp add: getRawObject_def loose_path_def)
      next
        case (Some a)
        obtain pack off where a: "a = (pack, off)" by (cases a)
        from Some none have ex: "\<not> (\<forall>ix \<in> set (indexfiles repo). offsetValues ix oid = None)"
          by simp
        from assms(2) have "readObjectBytes env (packpath pack) (indexfiles repo) off metaOnly \<noteq> Inl (ObjectNotFound oid)"
          by blast
        with Inl True Some a ex show ?thesis
          by (auto simp: getRawObject_def loose_path_def split: sum.splits)
      qed
    qed
  qed
qed

theorem getRawObject_ObjectNotFound_witness:
  "getRawObject ex_store ex_packed_repo ''w'' False = Inl (ObjectNotFound ''w'') \<and>
   getRawObject ex_store ex_packed_repo ''y'' False \<noteq> Inl (ObjectNotFound ''y'') \<and>
   getRawObject ex_store ex_packed_repo ''z'' False = Inl (IOError ''permission denied'')"
  using getRawObject_ObjectNotFound [of ex_store "''w''" ex_packed_repo False]
    getRawObject_ObjectNotFound [of ex_store "''y''" ex_packed_repo False]
    getRawObject_ObjectNotFound [of ex_store "''z''" ex_packed_repo False]
  by (simp add: ex_store_def ex_packed_repo_def loose_path_def IsNotExist_def ex_index1_def
      ex_index2_def ex_index3_def)

section \<open>The commit cache\<close>

lemma getCommit_hit:
  "commitCache repo = Some cache \<Longrightarrow> cache oid = Some c \<Longrightarrow> getCommit env repo oid = (Inr c, repo)"
  by (simp add: getCommit_def)

lemma fetchCommit_ok:
  "fetchCommit env repo cache oid = (Inr c, repo1) \<Longrightarrow> commitCache repo1 = Some (cache(oid \<mapsto> c))"
  by (auto simp: fetchCommit_def Let_def split: sum.splits)

lemma getCommit_ok_cached:
  "getCommit env repo oid = (Inr c, repo1) \<Longrightarrow> \<exists>cache. commitCache repo1 = Some cache \<and> cache oid = Some c"
  by (auto simp: getCommit_def split: option.splits dest: fetchCommit_ok)

lemma fetchCommit_keeps:
  "cache oid = Some c \<Longrightarrow> cache j = None \<Longrightarrow> commitCache repo = Some cache \<Longrightarrow>
   \<exists>cache1. commitCache (snd (fetchCommit env repo cache j)) = Some cache1 \<and> cache1 oid = Some c"
  by (auto simp: fetchCommit_def Let_def split: sum.splits)

lemma getCommit_keeps:
  assumes "commitCache repo = Some cache" "cache oid = Some c"
  shows "\<exists>cache1. commitCache (snd (getCommit env repo j)) = Some cache1 \<and> cache1 oid = Some c"
proof (cases "cache j")
  case None
  with assms fetchCommit_keeps [OF assms(2) None assms(1), of env] show ?thesis
    by (simp add: getCommit_def)
next
  case (Some a)
  with assms show ?thesis by (simp add: getCommit_def)
qed

lemma run_calls_keeps:
  "commitCache repo = Some cache \<Longrightarrow> cache oid = Some c \<Longrightarrow>
   \<exists>cache1. commitCache (run_calls repo cs) = Some cache1 \<and> cache1 oid = Some c"
proof (induction cs arbitrary: repo cache)
  case Nil
  then show ?case by simp
next
  case (Cons a cs)
  obtain env j where a: "a = (env, j)" by (cases a)
  from getCommit_keeps [OF Cons.prems, of env j]
  obtain cache1 where "commitCache (snd (getCommit env repo j)) = Some cache1" "cache1 oid = Some c"
    by blast
  from Cons.IH [OF this] a show ?case by simp
qed

text \<open>
  C7. \<open>getCommit\<close> is idempotent per identifier. After a call that returned a
  record, another call for the same identifier on the same handle, at once or
  after any further calls, returns the same record and leaves the handle, ghost
  log included, as it was, whatever the store then answers: it makes no object
  resolution and no decode. The cache keeps that one record for the identifier.
\<close>

theorem getCommit_idempotent:
  assumes "getCommit env repo oid = (Inr c, repo1)"
  shows "getCommit env2 repo1 oid = (Inr c, repo1) \<and>
         getCommit env2 (run_calls repo1 cs) oid = (Inr c, run_calls repo1 cs) \<and>
         cached (run_calls repo1 cs) oid = Some c"
proof -
  from getCommit_ok_cached [OF assms]
  obtain cache where c: "commitCache repo1 = Some cache" "cache oid = Some c" by blast
  from run_calls_keeps [OF c, of cs]
  obtain cache1 where c1: "commitCache (run_calls repo1 cs) = Some cache1" "cache1 oid = Some c"
    by blast
  from c c1 show ?thesis
    by (simp add: getCommit_hit cached_def)
qed

theorem getCommit_idempotent_witness:
  "fst (getCommit (ex_env ex_commits) ex_repo ''B'') = Inr \<lparr>Id = ''B'', parents = [''A''], When = 100, CommitMessage = ''b''\<rparr> \<and>
   log (snd (getCommit (ex_env ex_commits) ex_repo ''B'')) = [ObjectCall ''B'', ParseCall ''B''] \<and>
   getCommit (ex_env (\<lambda>d. Inl (ErrorString ''unreadable''))) (snd (getCommit (ex_env ex_commits) ex_repo ''B'')) ''B''
     = (Inr \<lparr>Id = ''B'', parents = [''A''], When = 100, CommitMessage = ''b''\<rparr>,
        snd (getCommit (ex_env ex_commits) ex_repo ''B''))"
proof -
  have f: "fst (getCommit (ex_env ex_commits) ex_repo ''B'')
      = Inr \<lparr>Id = ''B'', parents = [''A''], When = 100, CommitMessage = ''b''\<rparr>"
    by (simp add: getCommit_def fetchCommit_def ex_env_def ex_commits_def ex_repo_def Let_def)
  have l: "log (snd (getCommit (ex_env ex_commits) ex_repo ''B'')) = [ObjectCall ''B'', ParseCall ''B'']"
    by (simp add: getCommit_def fetchCommit_def ex_env_def ex_commits_def ex_repo_def Let_def)
  have h: "getCommit (ex_env ex_commits) ex_repo ''B''
      = (Inr \<lparr>Id = ''B'', parents = [''A''], When = 100, CommitMessage = ''b''\<rparr>,
         snd (getCommit (ex_env ex_commits) ex_repo ''B''))"
    by (metis f prod.collapse)
  from getCommit_idempotent [OF h, of "ex_env (\<lambda>d. Inl (ErrorString ''unreadable''))" "[]"]
  have "getCommit (ex_env (\<lambda>d. Inl (ErrorString ''unreadable''))) (snd (getCommit (ex_env ex_commits) ex_repo ''B'')) ''B''
     = (Inr \<lparr>Id = ''B'', parents = [''A''], When = 100, CommitMessage = ''b''\<rparr>,
        snd (getCommit (ex_env ex_commits) ex_repo ''B''))"
    by (rule conjunct1)
  with f l show ?thesis by (intro conjI)
qed

lemma fetchCommit_fail:
  "fetchCommit env repo cache oid = (Inl err, repo1) \<Longrightarrow>
     commitCache repo1 = commitCache repo \<and> Path repo1 = Path repo \<and> indexfiles repo1 = indexfiles repo"
  by (auto simp: fetchCommit_def Let_def split: sum.splits)

lemma fetchCommit_log:
  "\<exists>es. log (snd (fetchCommit env repo cache oid)) = log repo @ ObjectCall oid # es"
  by (auto simp: fetchCommit_def Let_def split: sum.splits)

lemma fetchCommit_fst:
  "fst (fetchCommit env repo cache oid) =
     (case object env oid False of
        Inl err \<Rightarrow> Inl err
      | Inr ob \<Rightarrow> (case parseCommitData env (Data ob) of
                    Inl err \<Rightarrow> Inl err
                  | Inr parsed \<Rightarrow> Inr (parsed\<lparr>Id := oid\<rparr>)))"
  by (auto simp: fetchCommit_def Let_def split: sum.splits)

text \<open>
  C9. \<open>getCommit\<close> is atomic on failure. When a call fails, the cache reads as
  before and has no entry for the identifier (path and pack indices are
  untouched), so a later call resolves the object again and, when resolution and
  parsing then succeed, returns the freshly parsed record.
\<close>

theorem getCommit_failure_atomic:
  assumes "getCommit env repo oid = (Inl err, repo1)"
  shows "cached repo1 = cached repo \<and> cached repo1 oid = None \<and>
         Path repo1 = Path repo \<and> indexfiles repo1 = indexfiles repo \<and>
         (\<exists>es. log (snd (getCommit env2 repo1 oid)) = log repo1 @ ObjectCall oid # es) \<and>
         (\<forall>ob parsed. object env2 oid False = Inr ob \<and> parseCommitData env2 (Data ob) = Inr parsed
            \<longrightarrow> fst (getCommit env2 repo1 oid) = Inr (parsed\<lparr>Id := oid\<rparr>))"
proof -
  have miss: "cached repo oid = None"
    using assms by (auto simp: getCommit_def cached_def split: option.splits)
  have same: "cached repo1 = cached repo \<and> Path repo1 = Path repo \<and> indexfiles repo1 = indexfiles repo"
    using assms by (auto simp: getCommit_def cached_def split: option.splits dest!: fetchCommit_fail)
  from miss same have miss1: "cached repo1 oid = None" by simp
  have "\<exists>r. getCommit env2 repo1 oid = fetchCommit env2 r (cached repo1) oid \<and> log r = log repo1"
    using miss1 by (cases "commitCache repo1") (auto simp: getCommit_def cached_def)
  then obtain r where again: "getCommit env2 repo1 oid = fetchCommit env2 r (cached repo1) oid"
    and r: "log r = log repo1"
    by blast
  have lg: "\<exists>es. log (snd (getCommit env2 repo1 oid)) = log repo1 @ ObjectCall oid # es"
    using fetchCommit_log [of env2 r "cached repo1" oid] r
    by (simp add: again)
  have fresh: "\<forall>ob parsed. object env2 oid False = Inr ob \<and> parseCommitData env2 (Data ob) = Inr parsed
            \<longrightarrow> fst (getCommit env2 repo1 oid) = Inr (parsed\<lparr>Id := oid\<rparr>)"
    by (simp add: again fetchCommit_fst)
  from miss1 same lg fresh show ?thesis by simp
qed

theorem getCommit_failure_atomic_witness:
  "fst (getCommit (ex_env ex_commits) ex_repo ''gone'') = Inl (ObjectNotFound ''gone'') \<and>
   cached (snd (getCommit (ex_env ex_commits) ex_repo ''gone'')) = cached ex_repo \<and>
   cached (snd (getCommit (ex_env ex_commits) ex_repo ''gone'')) ''gone'' = None"
proof -
  have f: "fst (getCommit (ex_env ex_commits) ex_repo ''gone'') = Inl (ObjectNotFound ''gone'')"
    by (simp add: getCommit_def fetchCommit_def ex_env_def ex_commits_def ex_repo_def Let_def)
  have h: "getCommit (ex_env ex_commits) ex_repo ''gone''
      = (Inl (ObjectNotFound ''gone''), snd (getCommit (ex_env ex_commits) ex_repo ''gone''))"
    by (metis f prod.collapse)
  from getCommit_failure_atomic [OF h, of "ex_env ex_commits"] f
  show ?thesis by blast
qed

section \<open>First-parent history\<close>

lemma getCommit_fst:
  "fst (getCommit env repo oid) =
     (case cached repo oid of
        Some c \<Rightarrow> Inr c
      | None \<Rightarrow> fresh_commit env oid)"
  by (auto simp: getCommit_def cached_def fetchCommit_def fresh_commit_def Let_def
      split: option.splits sum.splits)

lemma getCommit_snd_cached:
  "cached (snd (getCommit env repo j)) =
     (case cached repo j of
        Some c \<Rightarrow> cached repo
      | None \<Rightarrow> (case fresh_commit env j of
                   Inr c \<Rightarrow> (cached repo)(j \<mapsto> c)
                 | Inl err \<Rightarrow> cached repo))"
  by (auto simp: getCommit_def cached_def fetchCommit_def fresh_commit_def Let_def
      split: option.splits sum.splits)

lemma commit_of_stable:
  "commit_of env (snd (getCommit env repo j)) = commit_of env repo"
proof
  fix i
  show "commit_of env (snd (getCommit env repo j)) i = commit_of env repo i"
    by (auto simp: commit_of_def getCommit_fst getCommit_snd_cached split: option.splits sum.splits)
qed

lemma loop_follows_walk:
  "first_parent_walk n (commit_of env repo) (Id b) cur = Some cs \<Longrightarrow>
   \<exists>repo1. CommitsBetween_loop env repo cur b l = Some (Inr (l @ cs), repo1)"
proof (induction n arbitrary: repo cur l cs)
  case 0
  then show ?case by simp
next
  case (Suc n)
  show ?case
  proof (cases "Id cur = Id b")
    case True
    with Suc.prems show ?thesis
      by (subst CommitsBetween_loop.simps) simp
  next
    case False
    show ?thesis
    proof (cases "parents cur")
      case Nil
      with False Suc.prems show ?thesis
        by (subst CommitsBetween_loop.simps) (simp add: ParentCount_def)
    next
      case (Cons p ps)
      with False Suc.prems obtain nxt cs1 where
        nxt: "commit_of env repo p = Inr nxt"
        and w: "first_parent_walk n (commit_of env repo) (Id b) nxt = Some cs1"
        and cs: "cs = cur # cs1"
        by (auto split: sum.splits)
      define repo1 where "repo1 = snd (getCommit env repo p)"
      have par: "Parent env repo cur 0 = (Inr nxt, repo1)"
        using Cons nxt by (simp add: Parent_def ParentId_def commit_of_def repo1_def prod_eq_iff)
      have "commit_of env repo1 = commit_of env repo"
        by (simp add: repo1_def commit_of_stable)
      with w have "first_parent_walk n (commit_of env repo1) (Id b) nxt = Some cs1"
        by simp
      from Suc.IH [OF this, of "l @ [cur]"]
      obtain repo2 where "CommitsBetween_loop env repo1 nxt b (l @ [cur]) = Some (Inr ((l @ [cur]) @ cs1), repo2)"
        by blast
      with False Cons par cs show ?thesis
        by (subst CommitsBetween_loop.simps) (simp add: ParentCount_def)
    qed
  qed
qed

lemma loop_returns_walk:
  assumes "CommitsBetween_loop env repo cur b l = Some r"
  shows "\<forall>cs repo1. r = (Inr cs, repo1) \<longrightarrow>
           (\<exists>n cs1. cs = l @ cs1 \<and> first_parent_walk n (commit_of env repo) (Id b) cur = Some cs1)"
proof (rule CommitsBetween_loop.raw_induct
    [where P = "\<lambda>env repo cur b l r. \<forall>cs repo1. r = (Inr cs, repo1) \<longrightarrow>
           (\<exists>n cs1. cs = l @ cs1 \<and> first_parent_walk n (commit_of env repo) (Id b) cur = Some cs1)",
     OF _ assms], goal_cases)
  case (1 loop env repo cur b l r)
  show ?case
  proof (cases "Id cur = Id b")
    case True
    with 1(2) have "first_parent_walk (Suc 0) (commit_of env repo) (Id b) cur = Some []" "r = (Inr l, repo)"
      by auto
    then show ?thesis by (metis append_Nil2 prod.inject sum.inject(2))
  next
    case False
    show ?thesis
    proof (cases "parents cur")
      case Nil
      with False 1(2) have "first_parent_walk (Suc 0) (commit_of env repo) (Id b) cur = Some [cur]"
        "r = (Inr (l @ [cur]), repo)"
        by (auto simp: ParentCount_def)
      then show ?thesis by (metis prod.inject sum.inject(2))
    next
      case (Cons p ps)
      show ?thesis
      proof (intro allI impI)
        fix cs repo2
        assume r: "r = (Inr cs, repo2)"
        define repo1 where "repo1 = snd (getCommit env repo p)"
        have par: "Parent env repo cur 0 = (commit_of env repo p, repo1)"
          using Cons by (simp add: Parent_def ParentId_def commit_of_def repo1_def)
        from False Cons 1(2) par r obtain nxt where
          nxt: "commit_of env repo p = Inr nxt"
          and rec: "loop env repo1 nxt b (l @ [cur]) = Some (Inr cs, repo2)"
          by (auto simp: ParentCount_def split: sum.splits)
        from 1(1) [OF rec] obtain n cs1 where
          cs: "cs = (l @ [cur]) @ cs1"
          and w: "first_parent_walk n (commit_of env repo1) (Id b) nxt = Some cs1"
          by blast
        have "commit_of env repo1 = commit_of env repo"
          by (simp add: repo1_def commit_of_stable)
        with w False Cons nxt
        have "first_parent_walk (Suc n) (commit_of env repo) (Id b) cur = Some (cur # cs1)"
          by simp
        with cs show "\<exists>n cs1. cs = l @ cs1 \<and> first_parent_walk n (commit_of env repo) (Id b) cur = Some cs1"
          by (metis append_Cons append_Nil append_assoc)
      qed
    qed
  qed
qed

text \<open>
  C8. \<open>CommitsBetween\<close> returns the empty sequence when \<open>last\<close> is absent or has
  no parents. Otherwise it returns exactly the first-parent history from \<open>last\<close>:
  the commits reached by following only the first parent, newest first, up to
  and excluding the commit with the identifier of \<open>before\<close>, or up to and
  including a commit without parents when \<open>before\<close> is never met. Whenever that
  history exists the call returns it, and a sequence it returns is that history.
\<close>

theorem CommitsBetween_first_parent:
  "CommitsBetween env repo None before = Some (Inr [], repo) \<and>
   (parents lc = [] \<longrightarrow> CommitsBetween env repo (Some lc) before = Some (Inr [], repo)) \<and>
   (parents lc \<noteq> [] \<and> first_parent_walk n (commit_of env repo) (Id b) lc = Some cs
      \<longrightarrow> (\<exists>repo1. CommitsBetween env repo (Some lc) (Some b) = Some (Inr cs, repo1))) \<and>
   (parents lc \<noteq> [] \<and> CommitsBetween env repo (Some lc) (Some b) = Some (Inr cs, repo2)
      \<longrightarrow> (\<exists>k. first_parent_walk k (commit_of env repo) (Id b) lc = Some cs))"
proof (intro conjI impI)
  show "CommitsBetween env repo None before = Some (Inr [], repo)"
    by (simp add: CommitsBetween_def)
next
  assume "parents lc = []"
  then show "CommitsBetween env repo (Some lc) before = Some (Inr [], repo)"
    by (simp add: CommitsBetween_def ParentCount_def)
next
  assume a: "parents lc \<noteq> [] \<and> first_parent_walk n (commit_of env repo) (Id b) lc = Some cs"
  with loop_follows_walk [of n env repo b lc cs "[]"]
  show "\<exists>repo1. CommitsBetween env repo (Some lc) (Some b) = Some (Inr cs, repo1)"
    by (simp add: CommitsBetween_def ParentCount_def)
next
  assume a: "parents lc \<noteq> [] \<and> CommitsBetween env repo (Some lc) (Some b) = Some (Inr cs, repo2)"
  then have "CommitsBetween_loop env repo lc b [] = Some (Inr cs, repo2)"
    by (auto simp: CommitsBetween_def ParentCount_def)
  from loop_returns_walk [OF this]
  show "\<exists>k. first_parent_walk k (commit_of env repo) (Id b) lc = Some cs"
    by auto
qed

theorem CommitsBetween_first_parent_witness:
  "parents (ex_c ''c5'') \<noteq> [] \<and>
   first_parent_walk 4 (commit_of (ex_env ex_chain) ex_repo) ''c2'' (ex_c ''c5'')
     = Some [ex_c ''c5'', ex_c ''c4'', ex_c ''c3''] \<and>
   (\<exists>repo1. CommitsBetween (ex_env ex_chain) ex_repo (Some (ex_c ''c5'')) (Some (ex_c ''c2''))
     = Some (Inr [ex_c ''c5'', ex_c ''c4'', ex_c ''c3''], repo1)) \<and>
   parents (ex_c ''c1'') = [] \<and>
   CommitsBetween (ex_env ex_chain) ex_repo (Some (ex_c ''c1'')) (Some (ex_c ''c2'')) = Some (Inr [], ex_repo)"
proof -
  have p: "parents (ex_c ''c5'') \<noteq> []"
    by (simp add: ex_c_def ex_chain_def)
  have w: "first_parent_walk 4 (commit_of (ex_env ex_chain) ex_repo) (Id (ex_c ''c2'')) (ex_c ''c5'')
     = Some [ex_c ''c5'', ex_c ''c4'', ex_c ''c3'']"
    by (simp add: eval_nat_numeral commit_of_def getCommit_def fetchCommit_def ex_env_def
        ex_chain_def ex_c_def ex_repo_def Let_def)
  have i: "Id (ex_c ''c2'') = ''c2''"
    by (simp add: ex_c_def ex_chain_def)
  have q: "parents (ex_c ''c1'') = []"
    by (simp add: ex_c_def ex_chain_def)
  from CommitsBetween_first_parent [of "ex_env ex_chain" ex_repo None "ex_c ''c5''" 4 "ex_c ''c2''"
      "[ex_c ''c5'', ex_c ''c4'', ex_c ''c3'']"]
    CommitsBetween_first_parent [of "ex_env ex_chain" ex_repo "Some (ex_c ''c2'')" "ex_c ''c1''"]
    p w i q
  show ?thesis by simp
qed

section \<open>Reference resolution: indirection and direct content\<close>

lemma follows_returns:
  "follows n env rp = Some r \<Longrightarrow> getCommitIdOfRef env rp = Some r"
proof (induction n arbitrary: rp)
  case 0
  then show ?case
    by (subst getCommitIdOfRef.simps) (auto split: sum.splits option.splits)
next
  case (Suc n)
  then show ?case
    by (subst getCommitIdOfRef.simps) (auto split: sum.splits option.splits)
qed

lemma returns_follows:
  assumes "getCommitIdOfRef env rp = Some r"
  shows "\<exists>k. follows k env rp = Some r"
proof (rule getCommitIdOfRef.raw_induct
    [where P = "\<lambda>env rp r. \<exists>k. follows k env rp = Some r", OF _ assms], goal_cases)
  case (1 loop env rp r)
  show ?case
  proof (cases "ref_content env rp")
    case (Inl err)
    with 1(2) have "r = Inl err" by simp
    with Inl have "follows 0 env rp = Some r" by simp
    then show ?thesis ..
  next
    case (Inr f)
    show ?thesis
    proof (cases "refRexp_find f")
      case None
      with Inr 1(2) have "r = assume_ObjectID f" by simp
      with Inr None have "follows 0 env rp = Some r" by simp
      then show ?thesis ..
    next
      case (Some target)
      with Inr 1(2) have "loop env target = Some r" by simp
      from 1(1) [OF this] obtain k where "follows k env target = Some r" ..
      with Inr Some have "follows (Suc k) env rp = Some r" by simp
      then show ?thesis ..
    qed
  qed
qed

text \<open>
  C2, as amended. \<open>getCommitIdOfRef\<close> follows \<open>ref: path\<close> indirections with no
  bound on their number: for every \<open>n\<close>, a chain of \<open>n\<close> indirections that ends is
  followed to its end and the call returns what the end yields; and the call
  returns only in that way, so no error stands for too many indirections.
\<close>

theorem getCommitIdOfRef_unbounded:
  "(follows n env rp = Some r \<longrightarrow> getCommitIdOfRef env rp = Some r) \<and>
   (getCommitIdOfRef env rp = Some r \<longrightarrow> (\<exists>k. follows k env rp = Some r))"
  using follows_returns returns_follows by blast

theorem getCommitIdOfRef_unbounded_witness:
  "follows 12 ex_refs ''h'' = Some (Inr ''89abcdef0123456789abcdef0123456789abcdef'') \<and>
   getCommitIdOfRef ex_refs ''h'' = Some (Inr ''89abcdef0123456789abcdef0123456789abcdef'')"
proof -
  have f: "follows 12 ex_refs ''h'' = Some (Inr ''89abcdef0123456789abcdef0123456789abcdef'')"
    by code_simp
  from getCommitIdOfRef_unbounded [of 12 ex_refs "''h''" "Inr ''89abcdef0123456789abcdef0123456789abcdef''"] f
  show ?thesis by simp
qed

text \<open>
  C2 as stated does not hold: on two refs that point to each other the chain
  never ends, and the call does not return.
\<close>

lemma ex_refs_a: "ref_content ex_refs ''refs/heads/a'' = Inr ''ref: refs/heads/b\<newline>''"
  by (simp add: ref_content_def ex_refs_def)

lemma ex_refs_b: "ref_content ex_refs ''refs/heads/b'' = Inr ''ref: refs/heads/a\<newline>''"
  by (simp add: ref_content_def ex_refs_def)

lemma find_a: "refRexp_find ''ref: refs/heads/a\<newline>'' = Some ''refs/heads/a''"
  by (simp add: match_here_def HasPrefix_def)

lemma find_b: "refRexp_find ''ref: refs/heads/b\<newline>'' = Some ''refs/heads/b''"
  by (simp add: match_here_def HasPrefix_def)

lemma follows_cycle:
  "follows k ex_refs ''refs/heads/a'' = None \<and> follows k ex_refs ''refs/heads/b'' = None"
  by (induction k) (simp_all add: ex_refs_a ex_refs_b find_a find_b del: refRexp_find.simps)

theorem getCommitIdOfRef_cycle_counterexample:
  "getCommitIdOfRef ex_refs ''refs/heads/a'' = None"
proof (cases "getCommitIdOfRef ex_refs ''refs/heads/a''")
  case None
  then show ?thesis .
next
  case (Some r)
  from returns_follows [OF this] follows_cycle show ?thesis by auto
qed

text \<open>
  C5. When the content read for a ref (from the loose file or the packed-refs
  table) does not match the symbolic pattern, \<open>getCommitIdOfRef\<close> returns its
  first 40 bytes when there are at least 40 and they are valid hex; content
  shorter than 40 bytes, or whose first 40 bytes are not valid hex, gives a
  descriptive error, which is never \<open>RefNotFound\<close>.
\<close>

theorem getCommitIdOfRef_direct:
  assumes "ref_content env rp = Inr f" and "refRexp_find f = None"
  shows "(40 \<le> length f \<and> IsObjectIDHex (take 40 f)
            \<longrightarrow> getCommitIdOfRef env rp = Some (Inr (take 40 f))) \<and>
         (length f < 40
            \<longrightarrow> getCommitIdOfRef env rp = Some (Inl (ErrorString ''ObjectID hash too short''))) \<and>
         (40 \<le> length f \<and> \<not> IsObjectIDHex (take 40 f)
            \<longrightarrow> getCommitIdOfRef env rp =
                  Some (Inl (Errorf ''heads file wrong ObjectID string %s'' (take 40 f)))) \<and>
         (\<forall>err p. getCommitIdOfRef env rp = Some (Inl err) \<longrightarrow> err \<noteq> RefNotFound p)"
proof -
  have "getCommitIdOfRef env rp = Some (assume_ObjectID f)"
    using assms by (subst getCommitIdOfRef.simps) simp
  then show ?thesis
    by (auto simp: assume_ObjectID_def Let_def)
qed

theorem getCommitIdOfRef_direct_witness:
  "getCommitIdOfRef ex_refs ''refs/heads/main'' = Some (Inr ''0123456789abcdef0123456789ABCDEF01234567'') \<and>
   getCommitIdOfRef ex_refs ''refs/heads/short'' = Some (Inl (ErrorString ''ObjectID hash too short'')) \<and>
   getCommitIdOfRef ex_refs ''refs/heads/bad''
     = Some (Inl (Errorf ''heads file wrong ObjectID string %s'' ''this is not an object id, but it is long''))"
proof -
  have c1: "ref_content ex_refs ''refs/heads/main'' = Inr ''0123456789abcdef0123456789ABCDEF01234567\<newline>''"
    and c2: "ref_content ex_refs ''refs/heads/short'' = Inr ''0123456789abcdef\<newline>''"
    and c3: "ref_content ex_refs ''refs/heads/bad'' = Inr ''this is not an object id, but it is long enough''"
    by (simp_all add: ref_content_def ex_refs_def)
  have n1: "refRexp_find ''0123456789abcdef0123456789ABCDEF01234567\<newline>'' = None"
    and n2: "refRexp_find ''0123456789abcdef\<newline>'' = None"
    and n3: "refRexp_find ''this is not an object id, but it is long enough'' = None"
    by (simp_all add: match_here_def HasPrefix_def)
  from getCommitIdOfRef_direct [OF c1 n1] getCommitIdOfRef_direct [OF c2 n2]
    getCommitIdOfRef_direct [OF c3 n3]
  show ?thesis by (simp add: IsObjectIDHex_def isHexDigit_def)
qed


section \<open>Packed refs\<close>

text \<open>
  What holds of the scan of the packed-refs file: a line on which
  \<open>parseRefLine\<close> fails, or whose path differs, is passed over, and the first
  line that parses with the queried path gives the result; a missing file gives
  \<open>ErrNoPackedRefs\<close>.
\<close>

lemma scan_loop_first:
  "\<forall>t \<in> set pre. \<not> (\<exists>c. parseRefLine t = Inr \<lparr>commit = c, refpath = rp\<rparr>) \<Longrightarrow>
   parseRefLine line = Inr \<lparr>commit = c, refpath = rp\<rparr> \<Longrightarrow>
   scan_loop rp (pre @ line # post) = Some c"
proof (induction pre)
  case Nil
  then show ?case by simp
next
  case (Cons t pre)
  then have "\<not> (\<exists>c. parseRefLine t = Inr \<lparr>commit = c, refpath = rp\<rparr>)" by simp
  then have "scan_loop rp (t # pre @ line # post) = scan_loop rp (pre @ line # post)"
    by (cases "parseRefLine t") (auto, metis packedRef.surjective old.unit.exhaust)
  with Cons show ?case by simp
qed

lemma getCommitIdOfPackedRef_missing:
  "packedRefs env = OpenFails err \<Longrightarrow> IsNotExist err \<Longrightarrow>
   getCommitIdOfPackedRef env rp = Inl ErrNoPackedRefs"
  by (simp add: getCommitIdOfPackedRef_def)

text \<open>
  C6. The claim that comment lines are skipped fails on a comment of exactly two
  tokens whose first token is 40 bytes long and whose second starts with
  \<open>refs/\<close>: \<open>parseRefLine\<close> takes it for an entry, and the lookup of that path
  returns the comment's first token instead of the identifier of the entry that
  follows.
\<close>

theorem getCommitIdOfPackedRef_comment_entry:
  "parseRefLine ''#234567890123456789012345678901234567890 refs/heads/y''
     = Inr \<lparr>commit = ''#234567890123456789012345678901234567890'', refpath = ''refs/heads/y''\<rparr> \<and>
   getCommitIdOfPackedRef ex_refs ''refs/heads/y'' = Inr ''#234567890123456789012345678901234567890''"
  by code_simp

section \<open>Merge-aware ancestry\<close>

text \<open>The result below does not depend on the bound, as long as it allows depth 3.\<close>

lemma getCommitsBefore_duplicate_any_bound:
  "map_option (\<lambda>(l, err, repo). (ids l, err))
     (getCommitsBefore (Suc (Suc (Suc n))) (ex_env ex_commits) ex_repo ''M'')
     = Some ([''M'', ''A'', ''B'', ''A''], None)"
  by (simp add: getCommitsBefore_def getCommit_def fetchCommit_def ex_env_def ex_commits_def
      ex_repo_def Let_def PushBack_def InsertAfter_def ParentCount_def ParentId_def
      from_element_def ids_def)

text \<open>
  C1. The claim that no identifier is inserted twice fails when committer
  timestamps are equal: the scan stops at the first element with the commit's
  timestamp, before it has reached the element that holds the same identifier.
  For a merge \<open>M\<close> of \<open>A\<close> and \<open>B\<close>, with \<open>A\<close> the parent of \<open>B\<close> and one
  timestamp for all three, the recursion (of depth 3) returns without error and
  the list holds \<open>A\<close> twice.
\<close>

theorem getCommitsBefore_duplicate:
  "map_option (\<lambda>(l, err, repo). (ids l, err)) (getCommitsBefore 5 (ex_env ex_commits) ex_repo ''M'')
     = Some ([''M'', ''A'', ''B'', ''A''], None)"
  by code_simp

end
